theory Spec2Isabelle
  imports Main "HOL-Library.Sublist"
begin

section \<open>Text and character classes\<close>

text \<open>
  The script \<^verbatim>\<open>convert-services.py\<close> reads a file as text, rewrites it with regular
  expressions and writes it back. Text is modelled as \<^typ>\<open>string\<close>: a list of code points
  below 256, as \<^verbatim>\<open>f.read()\<close> returns them after decoding. The two character classes
  are the ones Python's \<^verbatim>\<open>re\<close> and \<^verbatim>\<open>str.strip\<close> use on that range:
  \<^verbatim>\<open>\s\<close> and \<^verbatim>\<open>str.isspace\<close> agree, and \<^verbatim>\<open>\w\<close> is \<^verbatim>\<open>str.isalnum\<close> or the underscore.
\<close>

definition is_space :: "char \<Rightarrow> bool" where
  "is_space c =
     (let n = (of_char c :: nat)
      in (9 \<le> n \<and> n \<le> 13) \<or> (28 \<le> n \<and> n \<le> 32) \<or> n = 133 \<or> n = 160)"

definition is_word :: "char \<Rightarrow> bool" where
  "is_word c =
     (let n = (of_char c :: nat)
      in (48 \<le> n \<and> n \<le> 57) \<or> (65 \<le> n \<and> n \<le> 90) \<or> n = 95 \<or> (97 \<le> n \<and> n \<le> 122)
         \<or> n = 170 \<or> n = 178 \<or> n = 179 \<or> n = 181 \<or> n = 185 \<or> n = 186
         \<or> (188 \<le> n \<and> n \<le> 190) \<or> (192 \<le> n \<and> n \<le> 214)
         \<or> (216 \<le> n \<and> n \<le> 246) \<or> (248 \<le> n \<and> n \<le> 255))"

definition nl :: char where
  "nl = CHR 0x0A"

section \<open>The regular expressions, as matchers at the head of a text\<close>

text \<open>
  Each matcher takes the text at the position where the match is tried and returns the
  captured groups and the text after the match, or \<open>None\<close>. The patterns of the script
  need no backtracking into a repetition: every \<^verbatim>\<open>\s+\<close>, \<^verbatim>\<open>\s*\<close> and \<^verbatim>\<open>\w+\<close> is greedy
  and is followed by an item that cannot start with a character of the repeated class, so
  giving characters back never lets the rest match. The matchers therefore take the
  longest run. That they return what a backtracking engine returns for the patterns is
  proved at the end (lemmas \<open>re_match_export\<close>, \<open>re_match_export_kw\<close>,
  \<open>re_match_signature\<close> and \<open>re_match_lookahead\<close>).
\<close>

definition lit :: "string \<Rightarrow> string \<Rightarrow> string option" where
  "lit p s = (if prefix p s then Some (drop (length p) s) else None)"

text \<open>\<^verbatim>\<open>\s+\<close>: the run of whitespace and the text after it.\<close>

definition spaces1 :: "string \<Rightarrow> (string \<times> string) option" where
  "spaces1 s =
     (case s of
        [] \<Rightarrow> None
      | c # cs \<Rightarrow> if is_space c then Some (takeWhile is_space s, dropWhile is_space s) else None)"

text \<open>\<^verbatim>\<open>(\w+)\<close>: the run of word characters and the text after it.\<close>

definition word1 :: "string \<Rightarrow> (string \<times> string) option" where
  "word1 s =
     (case s of
        [] \<Rightarrow> None
      | c # cs \<Rightarrow> if is_word c then Some (takeWhile is_word s, dropWhile is_word s) else None)"

text \<open>
  \<^verbatim>\<open>(async\s+)?\<close>: the group's text when it takes part, and the text after it. When
  the group matches, the text starts with \<^verbatim>\<open>async\<close>, so the alternative without the
  group cannot continue with \<^verbatim>\<open>function\<close>; trying the group first and keeping it is
  what the backtracking engine ends with.
\<close>

definition opt_async :: "string \<Rightarrow> string option \<times> string" where
  "opt_async s =
     (case lit ''async'' s of
        None \<Rightarrow> (None, s)
      | Some s1 \<Rightarrow>
          (case spaces1 s1 of
             None \<Rightarrow> (None, s)
           | Some (ws, s2) \<Rightarrow> (Some (''async'' @ ws), s2)))"

text \<open>\<^verbatim>\<open>export\s+\<close>: the whitespace consumed and the text after it.\<close>

definition match_export_kw :: "string \<Rightarrow> (string \<times> string) option" where
  "match_export_kw s = (case lit ''export'' s of None \<Rightarrow> None | Some s1 \<Rightarrow> spaces1 s1)"

text \<open>\<^verbatim>\<open>(async\s+)?function\s+(\w+)\s*\(\<close>: group 1, group 2 and the text after the match.\<close>

definition match_signature :: "string \<Rightarrow> (string option \<times> string \<times> string) option" where
  "match_signature s =
     (case opt_async s of (g1, s1) \<Rightarrow>
        (case lit ''function'' s1 of
           None \<Rightarrow> None
         | Some s2 \<Rightarrow>
             (case spaces1 s2 of
                None \<Rightarrow> None
              | Some (ws, s3) \<Rightarrow>
                  (case word1 s3 of
                     None \<Rightarrow> None
                   | Some (g2, s4) \<Rightarrow>
                       (case lit ''('' (dropWhile is_space s4) of
                          None \<Rightarrow> None
                        | Some s5 \<Rightarrow> Some (g1, g2, s5))))))"

text \<open>
  \<^verbatim>\<open>export_pattern = r'^export\s+(async\s+)?function\s+(\w+)\s*\('\<close>, without the
  anchor: the scanners below try it at the starts of lines only.
\<close>

definition match_export :: "string \<Rightarrow> (string option \<times> string \<times> string) option" where
  "match_export s =
     (case match_export_kw s of None \<Rightarrow> None | Some (ws, s1) \<Rightarrow> match_signature s1)"

text \<open>
  The lookahead \<^verbatim>\<open>(?=export\s+(async\s+)?function)\<close> of the split pattern: whether it
  holds, and the value of its group (\<open>None\<close> when the group takes no part).
\<close>

definition match_split_lookahead :: "string \<Rightarrow> string option option" where
  "match_split_lookahead s =
     (case match_export_kw s of
        None \<Rightarrow> None
      | Some (ws, s1) \<Rightarrow>
          (case opt_async s1 of (g1, s2) \<Rightarrow>
             (case lit ''function'' s2 of None \<Rightarrow> None | Some s3 \<Rightarrow> Some g1)))"

text \<open>An unmatched group reads as the empty string in \<^verbatim>\<open>findall\<close> and in a template.\<close>

definition group_text :: "string option \<Rightarrow> string" where
  "group_text g = (case g of None \<Rightarrow> [] | Some t \<Rightarrow> t)"

section \<open>A backtracking engine for the patterns\<close>

text \<open>
  The patterns of the script as regular expressions, and the way a backtracking engine
  such as Python's \<^verbatim>\<open>re\<close> matches them at a position: a literal, a greedy repetition of
  a character class (the longest run first, then shorter ones), an optional part (first
  with it, then without), a capturing group, a sequence. The continuation \<open>k\<close> is the
  rest of the match; a failure of the rest sends the engine back to the last choice. The
  last section proves that the matchers above return what this engine returns.
\<close>

datatype cls = Space | Word

fun in_cls :: "cls \<Rightarrow> char \<Rightarrow> bool" where
  "in_cls Space c = is_space c"
| "in_cls Word c = is_word c"

datatype group = G1 | G2

datatype regex =
    Lit string
  | Plus cls
  | Star cls
  | Opt regex
  | Group group regex
  | Seq regex regex

fun cat :: "regex list \<Rightarrow> regex" where
  "cat [] = Lit []"
| "cat [r] = r"
| "cat (r # rs) = Seq r (cat rs)"

fun greedy :: "nat \<Rightarrow> nat \<Rightarrow> (nat \<Rightarrow> 'a option) \<Rightarrow> 'a option" where
  "greedy lo n k =
     (if n < lo then None
      else (case k n of
              Some x \<Rightarrow> Some x
            | None \<Rightarrow> (if n = 0 then None else greedy lo (n - 1) k)))"

fun backtrack ::
  "regex \<Rightarrow> string \<Rightarrow> (group \<Rightarrow> string option)
     \<Rightarrow> (string \<Rightarrow> (group \<Rightarrow> string option) \<Rightarrow> 'a option) \<Rightarrow> 'a option" where
  "backtrack (Lit p) s g k = (if prefix p s then k (drop (length p) s) g else None)"
| "backtrack (Plus c) s g k =
     greedy 1 (length (takeWhile (in_cls c) s)) (\<lambda>n. k (drop n s) g)"
| "backtrack (Star c) s g k =
     greedy 0 (length (takeWhile (in_cls c) s)) (\<lambda>n. k (drop n s) g)"
| "backtrack (Opt r) s g k =
     (case backtrack r s g k of Some x \<Rightarrow> Some x | None \<Rightarrow> k s g)"
| "backtrack (Group i r) s g k =
     backtrack r s g (\<lambda>s' g'. k s' (g'(i \<mapsto> take (length s - length s') s)))"
| "backtrack (Seq r1 r2) s g k = backtrack r1 s g (\<lambda>s' g'. backtrack r2 s' g' k)"

definition re_match :: "regex \<Rightarrow> string \<Rightarrow> (string option \<times> string option \<times> string) option" where
  "re_match r s = backtrack r s (\<lambda>i. None) (\<lambda>s' g. Some (g G1, g G2, s'))"

text \<open>\<^verbatim>\<open>export\s+(async\s+)?function\s+(\w+)\s*\(\<close>\<close>

definition export_pattern :: regex where
  "export_pattern =
     cat [Lit ''export'', Plus Space, Opt (Group G1 (cat [Lit ''async'', Plus Space])),
          Lit ''function'', Plus Space, Group G2 (Plus Word), Star Space, Lit ''('']"


text \<open>\<^verbatim>\<open>export\s+\<close>, \<^verbatim>\<open>(async\s+)?function\s+(\w+)\s*\(\<close> and the lookahead
  \<^verbatim>\<open>export\s+(async\s+)?function\<close> of the split pattern.\<close>

definition export_kw_pattern :: regex where
  "export_kw_pattern = cat [Lit ''export'', Plus Space]"

definition signature_pattern :: regex where
  "signature_pattern =
     cat [Opt (Group G1 (cat [Lit ''async'', Plus Space])),
          Lit ''function'', Plus Space, Group G2 (Plus Word), Star Space, Lit ''('']"

definition lookahead_pattern :: regex where
  "lookahead_pattern =
     cat [Lit ''export'', Plus Space, Opt (Group G1 (cat [Lit ''async'', Plus Space])),
          Lit ''function'']"

section \<open>Scanning a text: findall, search, split, sub\<close>

text \<open>
  With \<^verbatim>\<open>re.MULTILINE\<close> the anchor \<^verbatim>\<open>^\<close> holds at the start of the text and right
  after each newline. The flag \<open>bol\<close> says whether the current position is such a place.
\<close>

lemma spaces1_shorter: "spaces1 s = Some (ws, r) \<Longrightarrow> length r < length s"
  by (cases s) (auto simp: spaces1_def length_dropWhile_le less_Suc_eq_le split: if_splits)

lemma word1_shorter: "word1 s = Some (w, r) \<Longrightarrow> length r < length s"
  by (cases s) (auto simp: word1_def length_dropWhile_le less_Suc_eq_le split: if_splits)

lemma lit_shorter: "lit p s = Some r \<Longrightarrow> length r \<le> length s"
  by (auto simp: lit_def split: if_splits)

lemma lit_dropWhile_shorter: "lit p (dropWhile P s) = Some r \<Longrightarrow> length r \<le> length s"
  using length_dropWhile_le[of P s] by (auto simp: lit_def split: if_splits)

lemma opt_async_shorter: "opt_async s = (g, r) \<Longrightarrow> length r \<le> length s"
  by (auto simp: opt_async_def split: option.splits dest!: lit_shorter spaces1_shorter)

lemma match_export_kw_shorter: "match_export_kw s = Some (ws, r) \<Longrightarrow> length r < length s"
  by (auto simp: match_export_kw_def split: option.splits dest!: lit_shorter spaces1_shorter)

lemma match_signature_shorter:
  assumes "match_signature s = Some (g1, g2, r)"
  shows "length r < length s"
proof -
  obtain s1 s2 ws s3 s4 where a: "opt_async s = (g1, s1)" and b: "lit ''function'' s1 = Some s2"
    and c: "spaces1 s2 = Some (ws, s3)" and d: "word1 s3 = Some (g2, s4)"
    and e: "lit ''('' (dropWhile is_space s4) = Some r"
    using assms by (auto simp: match_signature_def split: option.splits prod.splits)
  from a b c d e show ?thesis
    using opt_async_shorter[OF a] lit_shorter[OF b] spaces1_shorter[OF c] word1_shorter[OF d]
      lit_dropWhile_shorter[OF e] by linarith
qed

lemma match_export_shorter: "match_export s = Some (g1, g2, r) \<Longrightarrow> length r < length s"
  by (auto simp: match_export_def split: option.splits
      dest!: match_export_kw_shorter match_signature_shorter)

text \<open>
  \<^verbatim>\<open>re.findall(export_pattern, content, re.MULTILINE)\<close>: the pairs of groups of the
  matches, left to right, the scan going on after each match. A match ends with \<^verbatim>\<open>(\<close>
  (lemma \<open>match_export_ends_paren\<close>), so the position after it is not the start of a line.
\<close>

function findall_from :: "bool \<Rightarrow> string \<Rightarrow> (string \<times> string) list" where
  "findall_from bol [] = []"
| "findall_from bol (c # cs) =
     (case (if bol then match_export (c # cs) else None) of
        Some (g1, g2, rest) \<Rightarrow> (group_text g1, g2) # findall_from False rest
      | None \<Rightarrow> findall_from (c = nl) cs)"
  by pat_completeness auto
termination
  by (relation "measure (\<lambda>(bol, s). length s)")
    (auto split: if_splits dest: match_export_shorter)

definition findall_export :: "string \<Rightarrow> (string \<times> string) list" where
  "findall_export content = findall_from True content"

text \<open>
  \<^verbatim>\<open>re.search(export_pattern, content, re.MULTILINE)\<close>: the start offset of the first
  match.
\<close>

fun search_from :: "bool \<Rightarrow> nat \<Rightarrow> string \<Rightarrow> nat option" where
  "search_from bol i [] = None"
| "search_from bol i (c # cs) =
     (if bol \<and> match_export (c # cs) \<noteq> None then Some i
      else search_from (c = nl) (Suc i) cs)"

definition search_export :: "string \<Rightarrow> nat option" where
  "search_export content = search_from True 0 content"

text \<open>
  \<^verbatim>\<open>re.split(r'\n(?=export\s+(async\s+)?function)', s)\<close>. The pattern has a capturing
  group, so \<^verbatim>\<open>re.split\<close> returns, between two pieces, the value of that group at the
  split: its text, or Python's \<^verbatim>\<open>None\<close> when the group took no part in the match.
  The result is a list of optional strings: \<open>Some\<close> a piece or a group's text, \<open>None\<close> for
  Python's \<^verbatim>\<open>None\<close>.
\<close>

fun re_split_from :: "string \<Rightarrow> string \<Rightarrow> string option list" where
  "re_split_from piece [] = [Some piece]"
| "re_split_from piece (c # cs) =
     (case (if c = nl then match_split_lookahead cs else None) of
        Some g \<Rightarrow> Some piece # g # re_split_from [] cs
      | None \<Rightarrow> re_split_from (piece @ [c]) cs)"

definition re_split :: "string \<Rightarrow> string option list" where
  "re_split s = re_split_from [] s"

text \<open>
  \<^verbatim>\<open>re.sub(r'^export\s+', '', block, flags=re.MULTILINE)\<close>. The whitespace run may end
  with a newline, and then the position after the match is the start of a line again.
\<close>

function sub_export_from :: "bool \<Rightarrow> string \<Rightarrow> string" where
  "sub_export_from bol [] = []"
| "sub_export_from bol (c # cs) =
     (case (if bol then match_export_kw (c # cs) else None) of
        Some (ws, rest) \<Rightarrow> sub_export_from (last ws = nl) rest
      | None \<Rightarrow> c # sub_export_from (c = nl) cs)"
  by pat_completeness auto
termination
  by (relation "measure (\<lambda>(bol, s). length s)")
    (auto split: if_splits dest: match_export_kw_shorter)

definition sub_export :: "string \<Rightarrow> string" where
  "sub_export block = sub_export_from True block"

text \<open>
  \<^verbatim>\<open>re.sub(r'^(async\s+)?function\s+(\w+)\s*\(', r'\1\2(', block, flags=re.MULTILINE)\<close>.
\<close>

function sub_function_from :: "bool \<Rightarrow> string \<Rightarrow> string" where
  "sub_function_from bol [] = []"
| "sub_function_from bol (c # cs) =
     (case (if bol then match_signature (c # cs) else None) of
        Some (g1, g2, rest) \<Rightarrow> group_text g1 @ g2 @ ''('' @ sub_function_from False rest
      | None \<Rightarrow> c # sub_function_from (c = nl) cs)"
  by pat_completeness auto
termination
  by (relation "measure (\<lambda>(bol, s). length s)")
    (auto split: if_splits dest: match_signature_shorter)

definition sub_function :: "string \<Rightarrow> string" where
  "sub_function block = sub_function_from True block"

section \<open>String methods\<close>

definition rstrip :: "string \<Rightarrow> string" where
  "rstrip s = rev (dropWhile is_space (rev s))"

definition strip :: "string \<Rightarrow> string" where
  "strip s = dropWhile is_space (rstrip s)"

text \<open>\<^verbatim>\<open>s.split('\n')\<close>: never the empty list.\<close>

fun split_nl :: "string \<Rightarrow> string list" where
  "split_nl [] = [[]]"
| "split_nl (c # cs) =
     (if c = nl then [] # split_nl cs
      else (case split_nl cs of [] \<Rightarrow> [[c]] | l # ls \<Rightarrow> (c # l) # ls))"

text \<open>\<^verbatim>\<open>'\n'.join(lines)\<close>\<close>

fun join_nl :: "string list \<Rightarrow> string" where
  "join_nl [] = []"
| "join_nl [l] = l"
| "join_nl (l # ls) = l @ nl # join_nl ls"

section \<open>The converter\<close>

datatype error = FileNotFoundError | AttributeError

text \<open>The lines the script prints, one constructor for each \<^verbatim>\<open>print\<close>.\<close>

datatype msg =
    NoExports string
  | Found nat string
  | Converted string
  | FailError string error
  | FailNotFound string

text \<open>The files, by path, as the text that reading them gives, and what was printed.\<close>

record world =
  files :: "string \<rightharpoonup> string"
  out :: "msg list"

definition print :: "msg \<Rightarrow> world \<Rightarrow> world" where
  "print m w = w\<lparr>out := out w @ [m]\<rparr>"

definition write_file :: "string \<Rightarrow> string \<Rightarrow> world \<Rightarrow> world" where
  "write_file filepath text w = w\<lparr>files := (files w)(filepath \<mapsto> text)\<rparr>"

definition indent_line :: "string \<Rightarrow> string" where
  "indent_line line = (if strip line \<noteq> [] then ''  '' @ line else line)"

definition indent_block :: "string \<Rightarrow> string" where
  "indent_block block = join_nl (map indent_line (split_nl block))"

text \<open>
  The loop \<^verbatim>\<open>for i, block in enumerate(function_blocks)\<close>, with \<open>n\<close> the length of the
  whole list and \<open>i\<close> the index of the head. On an entry that is Python's \<^verbatim>\<open>None\<close>,
  \<^verbatim>\<open>block.strip()\<close> raises \<^verbatim>\<open>AttributeError\<close>.
\<close>

fun convert_blocks :: "nat \<Rightarrow> nat \<Rightarrow> string option list \<Rightarrow> string \<Rightarrow> error + string" where
  "convert_blocks n i [] new_content = Inr new_content"
| "convert_blocks n i (b # bs) new_content =
     (case b of
        None \<Rightarrow> Inl AttributeError
      | Some block \<Rightarrow>
          if strip block = [] \<or> \<not> prefix ''export'' block
          then convert_blocks n (Suc i) bs new_content
          else
            let block1 = sub_export block;
                block2 = sub_function block1;
                method_block = indent_block block2;
                method_block' =
                  (if int i < int n - 1 then rstrip method_block @ '','' else method_block)
            in convert_blocks n (Suc i) bs (new_content @ method_block' @ [nl]))"

text \<open>
  \<^verbatim>\<open>convert_service_file(filepath, service_name)\<close>. The result is the exception raised
  or the value returned, together with the files and the printed lines after the call.
  Opening a path that has no file raises \<^verbatim>\<open>FileNotFoundError\<close>. The content is the
  text that \<^verbatim>\<open>f.read()\<close> returns, and writing stores the new text under the path.
\<close>

definition convert_service_file :: "string \<Rightarrow> string \<Rightarrow> world \<Rightarrow> (error + bool) \<times> world" where
  "convert_service_file filepath service_name w =
     (case files w filepath of
        None \<Rightarrow> (Inl FileNotFoundError, w)
      | Some content \<Rightarrow>
          let exports = findall_export content
          in if exports = [] then (Inr False, print (NoExports filepath) w)
             else
               let w1 = print (Found (length exports) service_name) w
               in (case search_export content of
                     None \<Rightarrow> (Inr False, w1)
                   | Some start \<Rightarrow>
                       let imports_section = rstrip (take start content);
                           new_content = imports_section @ [nl, nl];
                           new_content = new_content @ ''export const '' @ service_name @ '' = {'' @ [nl];
                           remaining = drop start content;
                           function_blocks = re_split (nl # remaining)
                       in (case convert_blocks (length function_blocks) 0 function_blocks new_content of
                             Inl e \<Rightarrow> (Inl e, w1)
                           | Inr new_content \<Rightarrow>
                               (Inr True,
                                print (Converted service_name)
                                  (write_file filepath (new_content @ ''};'' @ [nl]) w1)))))"

section \<open>The batch driver\<close>






section \<open>Notions used to state the properties\<close>




text \<open>
  The values the group \<^verbatim>\<open>(async\s+)?\<close> can take: no part in the match, or \<^verbatim>\<open>async\<close>
  and a run of whitespace.
\<close>

definition async_ok :: "string option \<Rightarrow> bool" where
  "async_ok g =
     (case g of
        None \<Rightarrow> True
      | Some t \<Rightarrow> prefix ''async'' t \<and> drop 5 t \<noteq> [] \<and> list_all is_space (drop 5 t))"



section \<open>The search after a successful findall\<close>

lemma findall_from_search_from:
  "findall_from bol s \<noteq> [] \<Longrightarrow> search_from bol i s \<noteq> None"
proof (induction bol s arbitrary: i rule: findall_from.induct)
  case (1 bol)
  then show ?case by simp
next
  case (2 bol c cs)
  show ?case
  proof (cases "bol \<and> match_export (c # cs) \<noteq> None")
    case True
    then show ?thesis by simp
  next
    case False
    then have none: "(if bol then match_export (c # cs) else None) = None"
      by (cases "match_export (c # cs)") auto
    with "2.prems" have "findall_from (c = nl) cs \<noteq> []" by simp
    with "2.IH"(1)[OF none] have "search_from (c = nl) (Suc i) cs \<noteq> None" by blast
    with False show ?thesis by auto
  qed
qed

text \<open>
  C9: when \<^verbatim>\<open>re.findall\<close> with the export pattern has returned a non-empty list for the
  content, \<^verbatim>\<open>re.search\<close> with the same pattern on the same content finds a match, so
  the branch \<^verbatim>\<open>if not first_export_match: return False\<close> is never taken.
\<close>

theorem search_succeeds_after_findall:
  "findall_export content \<noteq> [] \<Longrightarrow> \<exists>start. search_export content = Some start"
  using findall_from_search_from[of True content 0]
  by (auto simp: findall_export_def search_export_def)

theorem search_succeeds_after_findall_witness:
  "findall_export ''export function f('' \<noteq> []
   \<and> (\<exists>start. search_export ''export function f('' = Some start)"
proof -
  have h: "findall_export ''export function f('' \<noteq> []" by code_simp
  from search_succeeds_after_findall[OF h] h show ?thesis by blast
qed

section \<open>A file without exports\<close>

text \<open>
  C3: on a file whose text has no match of the export pattern the converter writes
  nothing: it prints that no exports were found and returns \<^verbatim>\<open>False\<close>, raising no
  exception, and every file is as it was.
\<close>

theorem no_exports_is_noop:
  assumes "files w filepath = Some content" and "findall_export content = []"
  shows "convert_service_file filepath service_name w = (Inr False, print (NoExports filepath) w)
         \<and> files (snd (convert_service_file filepath service_name w)) = files w"
  using assms by (simp add: convert_service_file_def print_def)

theorem no_exports_is_noop_witness:
  "convert_service_file ''f'' ''svc'' \<lparr>files = [''f'' \<mapsto> ''import x''], out = []\<rparr>
     = (Inr False, print (NoExports ''f'') \<lparr>files = [''f'' \<mapsto> ''import x''], out = []\<rparr>)
   \<and> files (snd (convert_service_file ''f'' ''svc'' \<lparr>files = [''f'' \<mapsto> ''import x''], out = []\<rparr>))
     = [''f'' \<mapsto> ''import x'']"
proof -
  have a: "files \<lparr>files = [''f'' \<mapsto> ''import x''], out = []\<rparr> ''f'' = Some ''import x''"
    by simp
  have b: "findall_export ''import x'' = []" by code_simp
  from no_exports_is_noop[OF a b, of "''svc''"] show ?thesis by (simp add: print_def)
qed

section \<open>Exceptions and the file\<close>

text \<open>
  C10: when \<^verbatim>\<open>convert_service_file\<close> raises an exception, the files are as they were
  before the call: the only write is the last step, after the whole output text has been
  built.
\<close>

theorem exception_leaves_files:
  "convert_service_file filepath service_name w = (Inl e, w') \<Longrightarrow> files w' = files w"
  by (auto simp: convert_service_file_def print_def Let_def
      split: option.splits if_splits sum.splits)

theorem exception_leaves_files_witness:
  "fst (convert_service_file ''f'' ''svc'' \<lparr>files = [''f'' \<mapsto> ''export function foo() {}''], out = []\<rparr>)
     = Inl AttributeError
   \<and> files (snd (convert_service_file ''f'' ''svc''
                  \<lparr>files = [''f'' \<mapsto> ''export function foo() {}''], out = []\<rparr>))
     = [''f'' \<mapsto> ''export function foo() {}'']"
proof -
  let ?w = "\<lparr>files = [''f'' \<mapsto> ''export function foo() {}''], out = []\<rparr>"
  have h: "fst (convert_service_file ''f'' ''svc'' ?w) = Inl AttributeError"
    by code_simp
  have "convert_service_file ''f'' ''svc'' ?w
          = (Inl AttributeError, snd (convert_service_file ''f'' ''svc'' ?w))"
    using h by (simp add: prod_eq_iff)
  from exception_leaves_files[OF this] h show ?thesis by simp
qed

section \<open>The shape of the written text\<close>















lemma match_export_lookahead:
  "match_export s = Some (g1, g2, r) \<Longrightarrow> match_split_lookahead s = Some g1"
  by (auto simp: match_export_def match_split_lookahead_def match_signature_def
      split: option.splits prod.splits)





section \<open>Indentation\<close>











section \<open>Exported functions that are not async\<close>

text \<open>
  Whenever the first exported function of a file is not async, the group of the split
  pattern takes no part at the first split, the second entry of \<^verbatim>\<open>function_blocks\<close>
  is \<^verbatim>\<open>None\<close>, and the converter raises.
\<close>

lemma search_from_findall_from:
  "search_from bol i s \<noteq> None \<Longrightarrow> findall_from bol s \<noteq> []"
proof (induction bol s arbitrary: i rule: findall_from.induct)
  case (1 bol)
  then show ?case by simp
next
  case (2 bol c cs)
  show ?case
  proof (cases "if bol then match_export (c # cs) else None")
    case None
    then have n: "\<not> (bol \<and> match_export (c # cs) \<noteq> None)" by (auto split: if_splits)
    have "search_from bol i (c # cs) = search_from (c = nl) (Suc i) cs"
      using n by (simp only: search_from.simps if_False)
    with "2.prems" have "search_from (c = nl) (Suc i) cs \<noteq> None" by simp
    from "2.IH"(1)[OF None this] None show ?thesis by simp
  next
    case (Some a)
    then show ?thesis by (cases a) simp
  qed
qed

lemma plain_first_export_raises:
  assumes "files w filepath = Some content" and "search_export content = Some start"
    and "match_export (drop start content) = Some (None, name, rest)"
  shows "fst (convert_service_file filepath service_name w) = Inl AttributeError"
proof -
  have ne: "findall_export content \<noteq> []"
    using search_from_findall_from[of True 0 content] assms(2)
    by (simp add: findall_export_def search_export_def)
  from match_export_lookahead[OF assms(3)]
  have "re_split (nl # drop start content) = Some [] # None # re_split_from [] (drop start content)"
    by (simp add: re_split_def)
  then have "convert_blocks (length (re_split (nl # drop start content))) 0
               (re_split (nl # drop start content)) acc = Inl AttributeError" for acc
    by (simp add: strip_def rstrip_def)
  with assms(1,2) ne show ?thesis
    by (simp add: convert_service_file_def Let_def)
qed

text \<open>
  C1: a file with N exported functions should come out as an object literal with N
  method entries. On a file with the one export \<^verbatim>\<open>export function foo() {}\<close> the
  split returns Python's \<^verbatim>\<open>None\<close> for the group that took no part, the loop calls
  \<^verbatim>\<open>strip\<close> on it, and the converter raises \<^verbatim>\<open>AttributeError\<close>; the file stays as
  it was and no object literal is written.
\<close>

theorem plain_export_raises:
  "findall_export ''export function foo() {}'' = [('''', ''foo'')]
   \<and> re_split (nl # ''export function foo() {}'') = [Some [], None, Some ''export function foo() {}'']
   \<and> fst (convert_service_file ''f'' ''svc'' \<lparr>files = [''f'' \<mapsto> ''export function foo() {}''], out = []\<rparr>)
       = Inl AttributeError
   \<and> files (snd (convert_service_file ''f'' ''svc''
                 \<lparr>files = [''f'' \<mapsto> ''export function foo() {}''], out = []\<rparr>)) ''f''
       = Some ''export function foo() {}''"
  by code_simp

text \<open>
  C2: the scenario with \<^verbatim>\<open>foo\<close> and the async \<^verbatim>\<open>bar\<close> and the object name \<^verbatim>\<open>svc\<close>
  should give an object literal with both methods. The converter finds the two exports,
  the split has \<^verbatim>\<open>None\<close> before the block of \<^verbatim>\<open>foo\<close>, and the converter raises
  \<^verbatim>\<open>AttributeError\<close>; the file stays as it was.
\<close>

theorem scenario_raises:
  "findall_export ''export function foo() { return 1; }\<newline>export async function bar() { return 2; }''
     = [('''', ''foo''), (''async '', ''bar'')]
   \<and> re_split (nl # ''export function foo() { return 1; }\<newline>export async function bar() { return 2; }'')
     = [Some [], None, Some ''export function foo() { return 1; }'',
        Some ''async '', Some ''export async function bar() { return 2; }'']
   \<and> fst (convert_service_file ''f'' ''svc''
         \<lparr>files = [''f'' \<mapsto> ''export function foo() { return 1; }\<newline>export async function bar() { return 2; }''],
          out = []\<rparr>)
       = Inl AttributeError
   \<and> files (snd (convert_service_file ''f'' ''svc''
         \<lparr>files = [''f'' \<mapsto> ''export function foo() { return 1; }\<newline>export async function bar() { return 2; }''],
          out = []\<rparr>)) ''f''
       = Some ''export function foo() { return 1; }\<newline>export async function bar() { return 2; }''"
  by code_simp


section \<open>The rewritten signature\<close>

lemma word_not_space: "is_word c \<Longrightarrow> \<not> is_space c"
  by (auto simp: is_word_def is_space_def Let_def)


lemma lit_Some_iff: "lit p s = Some r \<longleftrightarrow> s = p @ r"
  by (auto simp: lit_def prefix_def)

lemma spaces1_SomeD:
  assumes "spaces1 s = Some (ws, r)"
  shows "s = ws @ r" "ws \<noteq> []" "\<forall>c\<in>set ws. is_space c" "r = [] \<or> \<not> is_space (hd r)"
proof -
  from assms obtain c cs where s: "s = c # cs" and c: "is_space c"
    and ws: "ws = takeWhile is_space s" and r: "r = dropWhile is_space s"
    by (cases s) (auto simp: spaces1_def split: if_splits)
  show "s = ws @ r" by (simp add: ws r)
  show "ws \<noteq> []" using s c by (simp add: ws)
  show "\<forall>c\<in>set ws. is_space c" unfolding ws by (auto dest: set_takeWhileD)
  show "r = [] \<or> \<not> is_space (hd r)" unfolding r using hd_dropWhile[of is_space s] by blast
qed

lemma word1_SomeD:
  assumes "word1 s = Some (w, r)"
  shows "s = w @ r" "w \<noteq> []" "\<forall>c\<in>set w. is_word c" "r = [] \<or> \<not> is_word (hd r)"
proof -
  from assms obtain c cs where s: "s = c # cs" and c: "is_word c"
    and w: "w = takeWhile is_word s" and r: "r = dropWhile is_word s"
    by (cases s) (auto simp: word1_def split: if_splits)
  show "s = w @ r" by (simp add: w r)
  show "w \<noteq> []" using s c by (simp add: w)
  show "\<forall>c\<in>set w. is_word c" unfolding w by (auto dest: set_takeWhileD)
  show "r = [] \<or> \<not> is_word (hd r)" unfolding r using hd_dropWhile[of is_word s] by blast
qed





lemma async_ok_None: "async_ok None"
  by (simp add: async_ok_def)

lemma async_ok_Some:
  "async_ok (Some t) \<longleftrightarrow> (\<exists>ws. t = ''async'' @ ws \<and> ws \<noteq> [] \<and> (\<forall>c\<in>set ws. is_space c))"
  by (auto simp: async_ok_def prefix_def list_all_iff)

lemma opt_async_D:
  assumes "opt_async s = (g, r)"
  shows "s = group_text g @ r" "async_ok g"
proof -
  show "s = group_text g @ r"
    using assms
    by (auto simp: opt_async_def group_text_def lit_Some_iff
        split: option.splits dest: spaces1_SomeD)
  show "async_ok g"
  proof (cases g)
    case None
    then show ?thesis by (simp add: async_ok_None)
  next
    case (Some t)
    with assms obtain s1 ws where "lit ''async'' s = Some s1" "spaces1 s1 = Some (ws, r)"
      and t: "t = ''async'' @ ws"
      by (auto simp: opt_async_def split: option.splits)
    from spaces1_SomeD(2,3)[OF this(2)] t have "async_ok (Some t)"
      unfolding async_ok_Some by blast
    with Some show ?thesis by simp
  qed
qed

lemma not_space_f: "\<not> is_space CHR ''f''"
  by (simp add: is_space_def)

lemma not_space_paren: "\<not> is_space CHR ''(''"
  by (simp add: is_space_def)

lemma not_word_paren: "\<not> is_word CHR ''(''"
  by (simp add: is_word_def)


lemma match_signature_D:
  assumes "match_signature s = Some (g1, name, rest)"
  shows "\<exists>ws3 ws4. s = group_text g1 @ ''function'' @ ws3 @ name @ ws4 @ ''('' @ rest
           \<and> async_ok g1 \<and> ws3 \<noteq> [] \<and> (\<forall>c\<in>set ws3. is_space c)
           \<and> name \<noteq> [] \<and> (\<forall>c\<in>set name. is_word c) \<and> (\<forall>c\<in>set ws4. is_space c)"
proof -
  from assms obtain s1 s2 ws3 s3 s4 where a: "opt_async s = (g1, s1)"
    and b: "lit ''function'' s1 = Some s2"
    and c: "spaces1 s2 = Some (ws3, s3)" and d: "word1 s3 = Some (name, s4)"
    and e: "lit ''('' (dropWhile is_space s4) = Some rest"
    by (auto simp: match_signature_def split: option.splits prod.splits)
  have "s4 = takeWhile is_space s4 @ dropWhile is_space s4" by simp
  with e have s4: "s4 = takeWhile is_space s4 @ ''('' @ rest" by (simp add: lit_Some_iff)
  have "\<forall>c\<in>set (takeWhile is_space s4). is_space c" by (auto dest: set_takeWhileD)
  with opt_async_D[OF a] b spaces1_SomeD[OF c] word1_SomeD[OF d] s4
  show ?thesis
    by (intro exI[of _ ws3] exI[of _ "takeWhile is_space s4"]) (simp add: lit_Some_iff)
qed













lemma match_export_kw_D:
  "match_export_kw s = Some (ws, r) \<Longrightarrow>
     s = ''export'' @ ws @ r \<and> ws \<noteq> [] \<and> (\<forall>c\<in>set ws. is_space c)"
  by (auto simp: match_export_kw_def lit_Some_iff split: option.splits dest: spaces1_SomeD)

text \<open>
  A match of the export pattern or of the signature pattern ends with \<^verbatim>\<open>(\<close>, so the
  position after it is not the start of a line, as the scans assume.
\<close>

lemma match_signature_ends_paren:
  assumes "match_signature s = Some (g1, g2, rest)"
  shows "\<exists>x. s = x @ ''('' @ rest"
proof -
  from match_signature_D[OF assms] obtain ws3 ws4 where
    "s = group_text g1 @ ''function'' @ ws3 @ g2 @ ws4 @ ''('' @ rest" by blast
  then have "s = (group_text g1 @ ''function'' @ ws3 @ g2 @ ws4) @ ''('' @ rest" by simp
  then show ?thesis by blast
qed

lemma match_export_ends_paren:
  assumes "match_export s = Some (g1, g2, rest)"
  shows "\<exists>x. s = x @ ''('' @ rest"
proof -
  from assms obtain ws s1 where kw: "match_export_kw s = Some (ws, s1)"
    and sig: "match_signature s1 = Some (g1, g2, rest)"
    by (auto simp: match_export_def split: option.splits)
  from match_signature_ends_paren[OF sig] obtain x where "s1 = x @ ''('' @ rest" by blast
  with match_export_kw_D[OF kw] have "s = (''export'' @ ws @ x) @ ''('' @ rest" by simp
  then show ?thesis by blast
qed




section \<open>The batch\<close>








section \<open>The matchers and the backtracking engine\<close>

text \<open>
  A greedy repetition whose rest fails on every text that starts with a character of the
  repeated class can only match with the longest run: this is why the matchers need no
  backtracking.
\<close>

lemmas greedy_simps = greedy.simps
declare greedy.simps [simp del]

lemma greedy_max:
  "\<forall>j. lo \<le> j \<and> j < n \<longrightarrow> k j = None \<Longrightarrow> greedy lo n k = (if lo \<le> n then k n else None)"
proof (induction lo n k rule: greedy.induct)
  case (1 lo n k)
  show ?case
  proof (cases "n < lo")
    case True
    then show ?thesis by (simp add: greedy_simps)
  next
    case ge: False
    show ?thesis
    proof (cases "k n")
      case None
      show ?thesis
      proof (cases "n = 0")
        case True
        with None ge show ?thesis by (simp add: greedy_simps)
      next
        case False
        have "\<forall>j. lo \<le> j \<and> j < n - 1 \<longrightarrow> k j = None" using "1.prems" by auto
        from "1.IH"[OF ge None False this]
        have "greedy lo (n - 1) k = (if lo \<le> n - 1 then k (n - 1) else None)" .
        moreover have "lo \<le> n - 1 \<Longrightarrow> k (n - 1) = None" using "1.prems" False by auto
        ultimately have "greedy lo (n - 1) k = None" by auto
        with None ge False show ?thesis by (subst greedy_simps) simp
      qed
    next
      case (Some a)
      with ge show ?thesis by (subst greedy_simps) simp
    qed
  qed
qed

lemma drop_in_run:
  assumes "j < length (takeWhile P s)"
  shows "drop j s \<noteq> [] \<and> P (hd (drop j s))"
proof -
  have "j < length s" using assms length_takeWhile_le[of P s] by simp
  moreover have "P (s ! j)" using assms by (metis nth_mem set_takeWhileD takeWhile_nth)
  ultimately show ?thesis by (simp add: hd_drop_conv_nth)
qed

lemma drop_length_takeWhile: "drop (length (takeWhile P s)) s = dropWhile P s"
  by (metis append_eq_conv_conj takeWhile_dropWhile_id)


lemma plus_det:
  assumes "\<And>t. t \<noteq> [] \<Longrightarrow> in_cls c (hd t) \<Longrightarrow> k t g = None"
  shows "backtrack (Plus c) s g k =
           (if s \<noteq> [] \<and> in_cls c (hd s) then k (dropWhile (in_cls c) s) g else None)"
proof -
  have "\<forall>j. 1 \<le> j \<and> j < length (takeWhile (in_cls c) s) \<longrightarrow> k (drop j s) g = None"
    using assms drop_in_run[of _ "in_cls c" s] by blast
  from greedy_max[of 1 "length (takeWhile (in_cls c) s)" "\<lambda>n. k (drop n s) g", OF this]
  have "backtrack (Plus c) s g k =
          (if 1 \<le> length (takeWhile (in_cls c) s) then k (dropWhile (in_cls c) s) g else None)"
    by (simp add: drop_length_takeWhile)
  moreover have "1 \<le> length (takeWhile (in_cls c) s) \<longleftrightarrow> s \<noteq> [] \<and> in_cls c (hd s)"
    by (cases s) auto
  ultimately show ?thesis by simp
qed

lemma star_det:
  assumes "\<And>t. t \<noteq> [] \<Longrightarrow> in_cls c (hd t) \<Longrightarrow> k t g = None"
  shows "backtrack (Star c) s g k = k (dropWhile (in_cls c) s) g"
proof -
  have "\<forall>j. 0 \<le> j \<and> j < length (takeWhile (in_cls c) s) \<longrightarrow> k (drop j s) g = None"
    using assms drop_in_run[of _ "in_cls c" s] by blast
  from greedy_max[of 0 "length (takeWhile (in_cls c) s)" "\<lambda>n. k (drop n s) g", OF this]
  show ?thesis by (simp add: drop_length_takeWhile)
qed


lemma bt_cat_Cons:
  "rs \<noteq> [] \<Longrightarrow>
     backtrack (cat (r # rs)) s g k = backtrack r s g (\<lambda>s' g'. backtrack (cat rs) s' g' k)"
  by (cases rs) simp_all

lemma bt_cat_single: "backtrack (cat [r]) s g k = backtrack r s g k"
  by simp

lemma bt_Group:
  "backtrack (Group i r) s g k
     = backtrack r s g (\<lambda>s' g'. k s' (g'(i \<mapsto> take (length s - length s') s)))"
  by simp

lemma bt_Opt:
  "backtrack (Opt r) s g k = (case backtrack r s g k of Some x \<Rightarrow> Some x | None \<Rightarrow> k s g)"
  by simp

lemma bt_Lit: "backtrack (Lit p) s g k = (case lit p s of None \<Rightarrow> None | Some r \<Rightarrow> k r g)"
  by (simp add: lit_def)

declare backtrack.simps [simp del] cat.simps [simp del]

lemma lit_head_None: "t \<noteq> [] \<Longrightarrow> p \<noteq> [] \<Longrightarrow> hd t \<noteq> hd p \<Longrightarrow> lit p t = None"
  by (cases t; cases p) (auto simp: lit_def)

lemma take_takeWhile: "take (length s - length (dropWhile P s)) s = takeWhile P s"
proof -
  have "length s - length (dropWhile P s) = length (takeWhile P s)"
    by (metis add_diff_cancel_right' length_append takeWhile_dropWhile_id)
  then show ?thesis by (metis append_eq_conv_conj takeWhile_dropWhile_id)
qed

lemma spaces1_alt:
  "spaces1 s = (if s \<noteq> [] \<and> is_space (hd s)
                then Some (takeWhile is_space s, dropWhile is_space s) else None)"
  by (cases s) (auto simp: spaces1_def)

lemma word1_alt:
  "word1 s = (if s \<noteq> [] \<and> is_word (hd s)
              then Some (takeWhile is_word s, dropWhile is_word s) else None)"
  by (cases s) (auto simp: word1_def)



lemma in_cls_eq [simp]: "in_cls Space = is_space" "in_cls Word = is_word"
  by (rule ext, simp)+

lemma lit_space_None: "t \<noteq> [] \<Longrightarrow> is_space (hd t) \<Longrightarrow> \<not> is_space c \<Longrightarrow> lit (c # p) t = None"
  by (cases t) (auto simp: lit_def)

lemma lit_word_None: "t \<noteq> [] \<Longrightarrow> is_word (hd t) \<Longrightarrow> \<not> is_word c \<Longrightarrow> lit (c # p) t = None"
  by (cases t) (auto simp: lit_def)

lemma dropWhile_space_word: "t \<noteq> [] \<Longrightarrow> is_word (hd t) \<Longrightarrow> dropWhile is_space t = t"
  by (cases t) (auto dest: word_not_space)

lemma bt_sig6:
  "backtrack (cat [Star Space, Lit ''('']) s g K
     = (case lit ''('' (dropWhile is_space s) of None \<Rightarrow> None | Some r \<Rightarrow> K r g)"
proof -
  let ?k = "\<lambda>s' g'. backtrack (cat [Lit ''('']) s' g' K"
  have "backtrack (cat [Star Space, Lit ''('']) s g K = backtrack (Star Space) s g ?k"
    by (rule bt_cat_Cons) simp
  also have "\<dots> = ?k (dropWhile (in_cls Space) s) g"
    by (rule star_det) (simp add: bt_cat_single bt_Lit lit_space_None not_space_paren)
  finally show ?thesis by (simp add: bt_cat_single bt_Lit)
qed

lemma bt_sig5:
  "backtrack (cat [Group G2 (Plus Word), Star Space, Lit ''('']) s g K
     = (case word1 s of
          None \<Rightarrow> None
        | Some (w, s4) \<Rightarrow>
            (case lit ''('' (dropWhile is_space s4) of
               None \<Rightarrow> None
             | Some r \<Rightarrow> K r (g(G2 \<mapsto> w))))"
proof -
  let ?k = "\<lambda>s' g'. backtrack (cat [Star Space, Lit ''('']) s' (g'(G2 \<mapsto> take (length s - length s') s)) K"
  have "backtrack (cat [Group G2 (Plus Word), Star Space, Lit ''('']) s g K
          = backtrack (Group G2 (Plus Word)) s g (\<lambda>s' g'. backtrack (cat [Star Space, Lit ''('']) s' g' K)"
    by (rule bt_cat_Cons) simp
  also have "\<dots> = backtrack (Plus Word) s g ?k"
    by (rule bt_Group)
  also have "\<dots> = (if s \<noteq> [] \<and> in_cls Word (hd s) then ?k (dropWhile (in_cls Word) s) g else None)"
    by (rule plus_det) (simp add: bt_sig6 dropWhile_space_word lit_word_None not_word_paren)
  finally show ?thesis
    by (simp add: bt_sig6 word1_alt take_takeWhile)
qed

lemma bt_sig4:
  "backtrack (cat [Plus Space, Group G2 (Plus Word), Star Space, Lit ''('']) s g K
     = (case spaces1 s of
          None \<Rightarrow> None
        | Some (ws, s3) \<Rightarrow>
            (case word1 s3 of
               None \<Rightarrow> None
             | Some (w, s4) \<Rightarrow>
                 (case lit ''('' (dropWhile is_space s4) of
                    None \<Rightarrow> None
                  | Some r \<Rightarrow> K r (g(G2 \<mapsto> w)))))"
proof -
  let ?k = "\<lambda>s' g'. backtrack (cat [Group G2 (Plus Word), Star Space, Lit ''('']) s' g' K"
  have "backtrack (cat [Plus Space, Group G2 (Plus Word), Star Space, Lit ''('']) s g K
          = backtrack (Plus Space) s g ?k"
    by (rule bt_cat_Cons) simp
  also have "\<dots> = (if s \<noteq> [] \<and> in_cls Space (hd s) then ?k (dropWhile (in_cls Space) s) g else None)"
    by (rule plus_det) (auto simp: bt_sig5 word1_alt dest: word_not_space)
  finally show ?thesis
    by (simp add: bt_sig5 spaces1_alt)
qed

lemma bt_sig3:
  "backtrack (cat [Lit ''function'', Plus Space, Group G2 (Plus Word), Star Space, Lit ''('']) s g K
     = (case lit ''function'' s of
          None \<Rightarrow> None
        | Some s2 \<Rightarrow>
          (case spaces1 s2 of
             None \<Rightarrow> None
           | Some (ws, s3) \<Rightarrow>
               (case word1 s3 of
                  None \<Rightarrow> None
                | Some (w, s4) \<Rightarrow>
                    (case lit ''('' (dropWhile is_space s4) of
                       None \<Rightarrow> None
                     | Some r \<Rightarrow> K r (g(G2 \<mapsto> w))))))"
proof -
  have "backtrack (cat [Lit ''function'', Plus Space, Group G2 (Plus Word), Star Space, Lit ''('']) s g K
          = backtrack (Lit ''function'') s g
              (\<lambda>s' g'. backtrack (cat [Plus Space, Group G2 (Plus Word), Star Space, Lit ''('']) s' g' K)"
    by (rule bt_cat_Cons) simp
  then show ?thesis by (simp only: bt_Lit bt_sig4)
qed


lemma lit_function_async: "prefix ''async'' t \<Longrightarrow> lit ''function'' t = None"
  by (auto simp: lit_def prefix_def)

lemma take_prefix_more: "take (length p + k) (p @ t) = p @ take k t"
  by simp

lemma take_async_run:
  assumes "lit ''async'' s = Some s1"
  shows "take (length s - length (dropWhile is_space s1)) s = ''async'' @ takeWhile is_space s1"
proof -
  from assms have s: "s = ''async'' @ s1" by (simp add: lit_Some_iff)
  have "length s - length (dropWhile is_space s1)
          = length ''async'' + (length s1 - length (dropWhile is_space s1))"
    using length_dropWhile_le[of is_space s1] by (simp add: s)
  then have "take (length s - length (dropWhile is_space s1)) s
          = ''async'' @ take (length s1 - length (dropWhile is_space s1)) s1"
    unfolding s by (simp only: take_prefix_more)
  then show ?thesis by (simp only: take_takeWhile)
qed

lemma bt_opt_async:
  assumes sp: "\<And>t g. t \<noteq> [] \<Longrightarrow> is_space (hd t) \<Longrightarrow> K t g = None"
    and as: "\<And>t g. prefix ''async'' t \<Longrightarrow> K t g = None"
  shows "backtrack (Opt (Group G1 (cat [Lit ''async'', Plus Space]))) s g K
           = (case opt_async s of
                (g1, s1) \<Rightarrow> K s1 (case g1 of None \<Rightarrow> g | Some a \<Rightarrow> g(G1 \<mapsto> a)))"
proof -
  let ?k = "\<lambda>s' g'. K s' (g'(G1 \<mapsto> take (length s - length s') s))"
  have "backtrack (Group G1 (cat [Lit ''async'', Plus Space])) s g K
          = backtrack (cat [Lit ''async'', Plus Space]) s g ?k"
    by (rule bt_Group)
  also have "\<dots> = backtrack (Lit ''async'') s g (\<lambda>s' g'. backtrack (cat [Plus Space]) s' g' ?k)"
    by (rule bt_cat_Cons) simp
  also have "\<dots> = (case lit ''async'' s of None \<Rightarrow> None
                     | Some s1 \<Rightarrow> backtrack (Plus Space) s1 g ?k)"
    by (simp only: bt_Lit bt_cat_single)
  also have "\<dots> = (case lit ''async'' s of None \<Rightarrow> None
                     | Some s1 \<Rightarrow> if s1 \<noteq> [] \<and> is_space (hd s1)
                                  then ?k (dropWhile is_space s1) g else None)"
    using plus_det[of Space ?k g] sp by (auto split: option.splits)
  finally have G: "backtrack (Group G1 (cat [Lit ''async'', Plus Space])) s g K
          = (case lit ''async'' s of None \<Rightarrow> None
             | Some s1 \<Rightarrow> if s1 \<noteq> [] \<and> is_space (hd s1)
                          then ?k (dropWhile is_space s1) g else None)" .
  show ?thesis
  proof (cases "lit ''async'' s")
    case None
    then show ?thesis by (simp add: bt_Opt G opt_async_def)
  next
    case (Some s1)
    show ?thesis
    proof (cases "s1 \<noteq> [] \<and> is_space (hd s1)")
      case False
      with Some show ?thesis by (auto simp: bt_Opt G opt_async_def spaces1_alt)
    next
      case True
      from Some have "prefix ''async'' s" by (simp add: lit_Some_iff)
      then have "K s g = None" by (rule as)
      with Some True show ?thesis
        by (auto simp: bt_Opt G opt_async_def spaces1_alt take_async_run
            split: option.splits)
    qed
  qed
qed

lemma bt_signature:
  "backtrack signature_pattern s g K
     = (case opt_async s of
          (g1, s1) \<Rightarrow>
            backtrack (cat [Lit ''function'', Plus Space, Group G2 (Plus Word), Star Space, Lit ''(''])
              s1 (case g1 of None \<Rightarrow> g | Some a \<Rightarrow> g(G1 \<mapsto> a)) K)"
proof -
  let ?k = "\<lambda>s' g'. backtrack
              (cat [Lit ''function'', Plus Space, Group G2 (Plus Word), Star Space, Lit ''('']) s' g' K"
  have "backtrack signature_pattern s g K
          = backtrack (Opt (Group G1 (cat [Lit ''async'', Plus Space]))) s g ?k"
    unfolding signature_pattern_def by (rule bt_cat_Cons) simp
  also have "\<dots> = (case opt_async s of
                (g1, s1) \<Rightarrow> ?k s1 (case g1 of None \<Rightarrow> g | Some a \<Rightarrow> g(G1 \<mapsto> a)))"
    by (rule bt_opt_async) (simp_all add: bt_sig3 lit_space_None not_space_f lit_function_async)
  finally show ?thesis .
qed

lemma re_match_signature:
  "re_match signature_pattern s
     = map_option (\<lambda>(g1, g2, r). (g1, Some g2, r)) (match_signature s)"
  by (auto simp: re_match_def bt_signature bt_sig3 match_signature_def
      split: prod.splits option.splits)


lemma opt_async_space: "t \<noteq> [] \<Longrightarrow> is_space (hd t) \<Longrightarrow> opt_async t = (None, t)"
  by (simp add: opt_async_def lit_space_None is_space_def)

lemma bt_signature_space:
  "t \<noteq> [] \<Longrightarrow> is_space (hd t) \<Longrightarrow> backtrack signature_pattern t g K = None"
  by (simp add: bt_signature opt_async_space bt_sig3 lit_space_None not_space_f)

lemma plus_last:
  "backtrack (Plus c) s g (\<lambda>s' g'. Some (f s' g'))
     = (if s \<noteq> [] \<and> in_cls c (hd s) then Some (f (dropWhile (in_cls c) s) g) else None)"
proof -
  define n where "n = length (takeWhile (in_cls c) s)"
  have n: "n < 1 \<longleftrightarrow> \<not> (s \<noteq> [] \<and> in_cls c (hd s))"
    unfolding n_def by (cases s) auto
  have "backtrack (Plus c) s g (\<lambda>s' g'. Some (f s' g')) = greedy 1 n (\<lambda>j. Some (f (drop j s) g))"
    unfolding n_def by (simp only: backtrack.simps)
  also have "\<dots> = (if n < 1 then None else Some (f (drop n s) g))"
    by (subst greedy_simps) simp
  also have "drop n s = dropWhile (in_cls c) s"
    unfolding n_def by (rule drop_length_takeWhile)
  finally show ?thesis using n by (simp del: in_cls_eq)
qed

lemma re_match_export_kw:
  "re_match export_kw_pattern s = map_option (\<lambda>(ws, r). (None, None, r)) (match_export_kw s)"
proof -
  have "re_match export_kw_pattern s
          = backtrack (Lit ''export'') s (\<lambda>i. None)
              (\<lambda>s' g'. backtrack (cat [Plus Space]) s' g' (\<lambda>s' g. Some (g G1, g G2, s')))"
    unfolding re_match_def export_kw_pattern_def by (rule bt_cat_Cons) simp
  then show ?thesis
    by (auto simp: bt_Lit bt_cat_single plus_last match_export_kw_def spaces1_alt
        split: option.splits)
qed

lemma bt_export_kw_then:
  assumes "\<And>t g. t \<noteq> [] \<Longrightarrow> is_space (hd t) \<Longrightarrow> backtrack (cat rs) t g K = None"
    and "rs \<noteq> []"
  shows "backtrack (cat (Lit ''export'' # Plus Space # rs)) s g K
           = (case match_export_kw s of None \<Rightarrow> None | Some (ws, s1) \<Rightarrow> backtrack (cat rs) s1 g K)"
proof -
  let ?k = "\<lambda>s' g'. backtrack (cat rs) s' g' K"
  have "backtrack (cat (Lit ''export'' # Plus Space # rs)) s g K
          = backtrack (Lit ''export'') s g (\<lambda>s' g'. backtrack (cat (Plus Space # rs)) s' g' K)"
    by (rule bt_cat_Cons) simp
  also have "\<dots> = (case lit ''export'' s of None \<Rightarrow> None
                     | Some s1 \<Rightarrow> backtrack (Plus Space) s1 g ?k)"
    by (simp add: bt_Lit bt_cat_Cons[OF assms(2)])
  also have "\<dots> = (case lit ''export'' s of None \<Rightarrow> None
                     | Some s1 \<Rightarrow> if s1 \<noteq> [] \<and> is_space (hd s1)
                                  then ?k (dropWhile is_space s1) g else None)"
    using plus_det[of Space ?k g] assms(1) by (auto split: option.splits)
  finally show ?thesis
    by (auto simp: match_export_kw_def spaces1_alt split: option.splits)
qed

lemma re_match_export:
  "re_match export_pattern s
     = map_option (\<lambda>(g1, g2, r). (g1, Some g2, r)) (match_export s)"
proof -
  have "re_match export_pattern s
          = (case match_export_kw s of None \<Rightarrow> None
             | Some (ws, s1) \<Rightarrow> re_match signature_pattern s1)"
    unfolding re_match_def export_pattern_def signature_pattern_def
    by (rule bt_export_kw_then)
      (simp_all add: bt_signature_space[unfolded signature_pattern_def])
  then show ?thesis
    by (auto simp: re_match_signature match_export_def split: option.splits)
qed

lemma re_match_lookahead:
  "map_option fst (re_match lookahead_pattern s) = match_split_lookahead s"
proof -
  let ?K = "\<lambda>s' (g :: group \<Rightarrow> string option). Some (g G1, g G2, s')"
  let ?kf = "\<lambda>s' g'. backtrack (cat [Lit ''function'']) s' g' ?K"
  have tail: "backtrack (cat [Opt (Group G1 (cat [Lit ''async'', Plus Space])), Lit ''function'']) t g ?K
          = (case opt_async t of
               (g1, s1) \<Rightarrow> ?kf s1 (case g1 of None \<Rightarrow> g | Some a \<Rightarrow> g(G1 \<mapsto> a)))" for t g
  proof -
    have "backtrack (cat [Opt (Group G1 (cat [Lit ''async'', Plus Space])), Lit ''function'']) t g ?K
            = backtrack (Opt (Group G1 (cat [Lit ''async'', Plus Space]))) t g ?kf"
      by (rule bt_cat_Cons) simp
    also have "\<dots> = (case opt_async t of
               (g1, s1) \<Rightarrow> ?kf s1 (case g1 of None \<Rightarrow> g | Some a \<Rightarrow> g(G1 \<mapsto> a)))"
      by (rule bt_opt_async)
        (simp_all add: bt_cat_single bt_Lit lit_space_None not_space_f lit_function_async)
    finally show ?thesis .
  qed
  have "re_match lookahead_pattern s
          = (case match_export_kw s of None \<Rightarrow> None
             | Some (ws, s1) \<Rightarrow>
                 backtrack (cat [Opt (Group G1 (cat [Lit ''async'', Plus Space])), Lit ''function''])
                   s1 (\<lambda>i. None) ?K)"
    unfolding re_match_def lookahead_pattern_def
    by (rule bt_export_kw_then)
      (simp_all add: tail opt_async_space bt_cat_single bt_Lit lit_space_None not_space_f
        )
  then show ?thesis
    by (auto simp: tail bt_cat_single bt_Lit match_split_lookahead_def
        split: option.splits prod.splits)
qed


end
